theory Spec2Isabelle
  imports Main
begin

section \<open>JavaScript strings and numbers\<close>

text \<open>
  A JavaScript string is a sequence of UTF-16 code units. A code unit is modelled as a
  natural number (below 65536 in the program; nothing here depends on the bound), so that
  \<open>length\<close> counts what \<^verbatim>\<open>String.prototype.length\<close> counts and a regular expression
  without the \<^verbatim>\<open>u\<close> flag sees one code unit at a time. \<open>js\<close> turns an ASCII literal
  of the script into its code units.
\<close>

type_synonym jsstring = "nat list"

definition js :: "string \<Rightarrow> jsstring" where
  "js lit = map of_char lit"

text \<open>
  \<^verbatim>\<open>String(n)\<close> for an integral number \<open>n\<close> (below \<open>10^21\<close>, where JavaScript
  switches to exponent notation): the decimal digits, with a minus sign for negative \<open>n\<close>.
  Times are integral numbers of milliseconds, far below \<open>2^53\<close>, so the double arithmetic
  of the script is exact on them and is modelled by \<open>int\<close>.
\<close>

fun digits :: "nat \<Rightarrow> jsstring" where
  "digits n = (if n < 10 then [48 + n] else digits (n div 10) @ [48 + n mod 10])"

declare digits.simps [simp del]

definition String :: "int \<Rightarrow> jsstring" where
  "String k = (if k < 0 then 45 # digits (nat (- k)) else digits (nat k))"

text \<open>\<^verbatim>\<open>s.padStart(2, '0')\<close>: zeros are put in front while the string is shorter than two.\<close>

definition padStart2 :: "jsstring \<Rightarrow> jsstring" where
  "padStart2 s = replicate (2 - length s) 48 @ s"

text \<open>
  The remainder operator \<^verbatim>\<open>%\<close> of JavaScript truncates: the result has the sign of the
  dividend. \<^verbatim>\<open>Math.floor(a / b)\<close> on integers is \<open>a div b\<close> of HOL, which rounds down.
\<close>

definition js_rem :: "int \<Rightarrow> int \<Rightarrow> int" where
  "js_rem a b = sgn a * (\<bar>a\<bar> mod \<bar>b\<bar>)"

section \<open>The timer display (the interval callback of \<^verbatim>\<open>startTimer\<close>)\<close>

definition timerDisplay :: "int \<Rightarrow> jsstring" where
  "timerDisplay timeElapsed =
     (let totalSeconds = timeElapsed div 1000;
          hours = padStart2 (String (totalSeconds div 3600));
          minutes = padStart2 (String (js_rem totalSeconds 3600 div 60));
          seconds = padStart2 (String (js_rem totalSeconds 60))
      in hours @ js '':'' @ minutes @ js '':'' @ seconds)"

section \<open>The default name of a recording (the head of \<^verbatim>\<open>addAudioToDisplay\<close>)\<close>

text \<open>
  \<open>date\<close> and \<open>time\<close> are what \<^verbatim>\<open>new Date().toLocaleDateString()\<close> and
  \<^verbatim>\<open>new Date().toLocaleTimeString()\<close> return: they depend on the clock and the locale and
  are inputs of the model.
\<close>

definition defaultName :: "int \<Rightarrow> jsstring \<Rightarrow> jsstring \<Rightarrow> jsstring" where
  "defaultName durationMs date time =
     (let totalSeconds = durationMs div 1000;
          minutes = padStart2 (String (totalSeconds div 60));
          seconds = padStart2 (String (js_rem totalSeconds 60))
      in js ''Recording '' @ date @ js '' '' @ time @ js '' ('' @ minutes @ js '':'' @ seconds
           @ js '')'')"

section \<open>The download file name (\<^verbatim>\<open>downloadRecording\<close>)\<close>

text \<open>
  \<^verbatim>\<open>filename.replace(/[^a-z0-9]/gi, '_')\<close>. The pattern has the flags \<^verbatim>\<open>g\<close> (every match is
  replaced) and \<^verbatim>\<open>i\<close> (case is ignored) and no \<^verbatim>\<open>u\<close> flag, so it is matched against
  single code units, and two code units are equal up to case when \<open>Canonicalize\<close> of
  ECMAScript maps them to the same code unit: the upper-case mapping, kept only when it
  yields one code unit and does not send a non-ASCII code unit to an ASCII one.
  The upper-case table of Unicode outside ASCII is the parameter \<open>toUpper\<close>
  (\<open>None\<close>: the upper-case form is longer than one code unit).
\<close>

definition asciiUpper :: "nat \<Rightarrow> nat" where
  "asciiUpper ch = (if 97 \<le> ch \<and> ch \<le> 122 then ch - 32 else ch)"

definition canonicalize :: "(nat \<Rightarrow> nat option) \<Rightarrow> nat \<Rightarrow> nat" where
  "canonicalize toUpper ch =
     (if ch < 128 then asciiUpper ch
      else case toUpper ch of
             None \<Rightarrow> ch
           | Some cu \<Rightarrow> if cu < 128 then ch else cu)"

text \<open>The members of the class \<^verbatim>\<open>a-z0-9\<close>.\<close>

definition classMembers :: "nat list" where
  "classMembers = [97 ..< 123] @ [48 ..< 58]"

text \<open>The inverted class \<^verbatim>\<open>[^a-z0-9]\<close> under the \<^verbatim>\<open>i\<close> flag.\<close>

definition matchesPattern :: "(nat \<Rightarrow> nat option) \<Rightarrow> nat \<Rightarrow> bool" where
  "matchesPattern toUpper ch =
     (canonicalize toUpper ch \<notin> set (map (canonicalize toUpper) classMembers))"

fun replaceAll :: "(nat \<Rightarrow> nat option) \<Rightarrow> jsstring \<Rightarrow> jsstring" where
  "replaceAll toUpper [] = []"
| "replaceAll toUpper (ch # rest) =
     (if matchesPattern toUpper ch then js ''_'' else [ch]) @ replaceAll toUpper rest"

definition downloadName :: "(nat \<Rightarrow> nat option) \<Rightarrow> jsstring \<Rightarrow> jsstring" where
  "downloadName toUpper filename = replaceAll toUpper filename @ js ''.webm''"

section \<open>The platform: capture, timers, object URLs\<close>

text \<open>
  The script drives three facilities of the browser, which are not part of the repository.
  They are modelled from the interfaces the script calls, as far as the script observes
  them:
  \<^item> \<^verbatim>\<open>MediaRecorder\<close>: its \<^verbatim>\<open>state\<close> attribute is \<^verbatim>\<open>inactive\<close>, \<^verbatim>\<open>recording\<close> or
    \<^verbatim>\<open>paused\<close>; \<^verbatim>\<open>pause()\<close> and \<^verbatim>\<open>resume()\<close> throw \<^verbatim>\<open>InvalidStateError\<close> on an inactive
    recorder; \<^verbatim>\<open>stop()\<close> makes the recorder inactive at once and queues the task that
    fires \<^verbatim>\<open>stop\<close> later;
  \<^item> \<^verbatim>\<open>setInterval\<close> and \<^verbatim>\<open>clearInterval\<close>: a list of the intervals that are running;
  \<^item> \<^verbatim>\<open>URL.createObjectURL\<close> and \<^verbatim>\<open>URL.revokeObjectURL\<close>: a store from object URLs to
    the bytes of their blobs; a revoked URL is no longer in the store.
\<close>

datatype rec_state = Inactive | RecRecording | RecPaused

datatype error = InvalidStateError | TypeError

datatype capture_call = CStart | CPause | CResume | CStop

definition recorderPause :: "rec_state \<Rightarrow> error + rec_state" where
  "recorderPause r = (if r = Inactive then Inl InvalidStateError else Inr RecPaused)"

definition recorderResume :: "rec_state \<Rightarrow> error + rec_state" where
  "recorderResume r = (if r = Inactive then Inl InvalidStateError else Inr RecRecording)"

type_synonym fragment = "nat list"

section \<open>The state of the page\<close>

text \<open>One element of \<^verbatim>\<open>#audio-list\<close>, as built by \<^verbatim>\<open>addAudioToDisplay\<close>.\<close>

record entry =
  item :: nat  \<comment> \<open>the identity of the \<^verbatim>\<open>itemDiv\<close> node\<close>
  url :: nat  \<comment> \<open>\<^verbatim>\<open>dataset.url\<close>, the \<^verbatim>\<open>src\<close> of the player and the URL the download button closes over\<close>
  name :: jsstring  \<comment> \<open>\<^verbatim>\<open>nameSpan.textContent\<close>\<close>

text \<open>
  The variables of the script keep their names. The fields after them are the platform
  (running intervals, queued \<^verbatim>\<open>stop\<close> tasks, live streams, object URLs, a supply of fresh
  identities), three logs that make effects visible (the operations invoked on the
  recorder, the URLs revoked, the downloads handed to the browser with the bytes their
  link resolved to), the exceptions that left a handler, and the elements of the page.
\<close>

record state =
  mediaRecorder :: "rec_state option"
  audioChunks :: "fragment list"
  stream :: "nat option"
  isRecording :: bool
  isPaused :: bool
  timerInterval :: "nat option"
  startTime :: int
  timeElapsed :: int
  intervals :: "nat list"
  pendingStop :: nat
  liveStreams :: "nat list"
  objectURLs :: "(nat \<times> nat list) list"
  fresh :: nat
  captureCalls :: "capture_call list"
  revoked :: "nat list"
  downloads :: "(jsstring \<times> nat list option) list"
  uncaught :: "error list"
  statusMessage :: jsstring
  timerText :: jsstring
  timerActive :: bool
  recordButtonRecording :: bool
  recordButtonDisabled :: bool
  activeControlsHidden :: bool
  pauseButtonHTML :: jsstring
  pauseButtonResuming :: bool
  audioList :: "entry list"

text \<open>
  The state when the script has been loaded: the variables as lines 9 to 16 declare them
  and an idle platform. The markup of the page is not part of the sources, so the
  contents of its elements are left open, except that the list of recordings starts
  empty.
\<close>

definition initial :: "state \<Rightarrow> bool" where
  "initial s =
     (mediaRecorder s = None \<and> audioChunks s = [] \<and> stream s = None \<and> \<not> isRecording s
      \<and> \<not> isPaused s \<and> timerInterval s = None \<and> timeElapsed s = 0 \<and> intervals s = []
      \<and> pendingStop s = 0 \<and> liveStreams s = [] \<and> objectURLs s = [] \<and> captureCalls s = []
      \<and> revoked s = [] \<and> downloads s = [] \<and> uncaught s = [] \<and> audioList s = [])"

text \<open>A page whose elements are empty, to run the script on.\<close>

definition blankPage :: state where
  "blankPage =
     \<lparr>mediaRecorder = None, audioChunks = [], stream = None, isRecording = False,
      isPaused = False, timerInterval = None, startTime = 0, timeElapsed = 0, intervals = [],
      pendingStop = 0, liveStreams = [], objectURLs = [], fresh = 0, captureCalls = [],
      revoked = [], downloads = [], uncaught = [], statusMessage = [],
      timerText = js ''00:00:00'', timerActive = False, recordButtonRecording = False,
      recordButtonDisabled = False, activeControlsHidden = True, pauseButtonHTML = [],
      pauseButtonResuming = False, audioList = []\<rparr>"

section \<open>Timer functions\<close>

text \<open>\<open>now\<close> is what \<^verbatim>\<open>Date.now()\<close> returns when the function runs.\<close>

definition startTimer :: "int \<Rightarrow> state \<Rightarrow> state" where
  "startTimer now s =
     s\<lparr>startTime := now - timeElapsed s, timerActive := True,
       timerInterval := Some (fresh s), intervals := fresh s # intervals s,
       fresh := Suc (fresh s)\<rparr>"

text \<open>The callback given to \<^verbatim>\<open>setInterval\<close>.\<close>

definition timerTick :: "int \<Rightarrow> state \<Rightarrow> state" where
  "timerTick now s =
     (let elapsed = now - startTime s
      in s\<lparr>timeElapsed := elapsed, timerText := timerDisplay elapsed\<rparr>)"

definition clearInterval :: "nat option \<Rightarrow> state \<Rightarrow> state" where
  "clearInterval handle s =
     (case handle of
        None \<Rightarrow> s
      | Some i \<Rightarrow> s\<lparr>intervals := removeAll i (intervals s)\<rparr>)"

definition resetTimer :: "state \<Rightarrow> state" where
  "resetTimer s =
     (clearInterval (timerInterval s) s)
       \<lparr>timerText := js ''00:00:00'', timerActive := False, timeElapsed := 0\<rparr>"

section \<open>Recording control functions\<close>

text \<open>
  The markup put into the pause button: \<^verbatim>\<open><i class=\<close>, a double quote (code unit 34), the
  classes of the icon, a double quote, \<^verbatim>\<open>></i>\<close>.
\<close>

definition pauseIcon :: jsstring where
  "pauseIcon = js ''<i class='' @ [34] @ js ''fas fa-pause'' @ [34] @ js ''></i>''"

definition playIcon :: jsstring where
  "playIcon = js ''<i class='' @ [34] @ js ''fas fa-play'' @ [34] @ js ''></i>''"

text \<open>
  \<^verbatim>\<open>startRecording\<close>. \<open>granted\<close> is the outcome of \<^verbatim>\<open>getUserMedia\<close>: the promise resolves
  with a new stream, or rejects and the \<^verbatim>\<open>catch\<close> block runs. The function is taken to
  run to its end before the next event is handled.
\<close>

definition startRecording :: "bool \<Rightarrow> int \<Rightarrow> state \<Rightarrow> state" where
  "startRecording granted now s =
     (let s1 = s\<lparr>statusMessage := js ''Requesting microphone access...''\<rparr>
      in if granted then
           startTimer now
             (s1\<lparr>stream := Some (fresh s1), liveStreams := fresh s1 # liveStreams s1,
                 fresh := Suc (fresh s1),
                 mediaRecorder := Some RecRecording, audioChunks := [],
                 captureCalls := captureCalls s1 @ [CStart],
                 isRecording := True,
                 recordButtonRecording := True, activeControlsHidden := False,
                 recordButtonDisabled := True, statusMessage := js ''Recording...'',
                 pauseButtonHTML := pauseIcon,
                 pauseButtonResuming := False, isPaused := False\<rparr>)
         else
           s1\<lparr>statusMessage := js ''Error: Microphone access denied or not available.'',
              recordButtonDisabled := False\<rparr>)"

text \<open>The handler \<^verbatim>\<open>ondataavailable\<close> installed by \<^verbatim>\<open>startRecording\<close>.\<close>

definition ondataavailable :: "fragment \<Rightarrow> state \<Rightarrow> state" where
  "ondataavailable d s = s\<lparr>audioChunks := audioChunks s @ [d]\<rparr>"

text \<open>
  \<^verbatim>\<open>togglePauseResume\<close>. A call on the recorder is logged before it takes effect; when it
  throws, the handler ends there and the exception is recorded.
\<close>

definition togglePauseResume :: "int \<Rightarrow> state \<Rightarrow> state" where
  "togglePauseResume now s =
     (case mediaRecorder s of
        None \<Rightarrow> s
      | Some r \<Rightarrow>
          if isPaused s then
            (let s1 = s\<lparr>captureCalls := captureCalls s @ [CResume]\<rparr>
             in case recorderResume r of
                  Inl e \<Rightarrow> s1\<lparr>uncaught := uncaught s1 @ [e]\<rparr>
                | Inr r' \<Rightarrow>
                    startTimer now
                      (s1\<lparr>mediaRecorder := Some r', isPaused := False,
                          pauseButtonHTML := pauseIcon,
                          pauseButtonResuming := False,
                          statusMessage := js ''Recording...''\<rparr>))
          else
            (let s1 = s\<lparr>captureCalls := captureCalls s @ [CPause]\<rparr>
             in case recorderPause r of
                  Inl e \<Rightarrow> s1\<lparr>uncaught := uncaught s1 @ [e]\<rparr>
                | Inr r' \<Rightarrow>
                    (let s2 = s1\<lparr>mediaRecorder := Some r', isPaused := True,
                                  pauseButtonHTML := playIcon,
                                  pauseButtonResuming := True,
                                  statusMessage :=
                                    js ''Recording Paused. Tap play to resume.''\<rparr>
                     in clearInterval (timerInterval s2) s2)))"

definition stopRecording :: "state \<Rightarrow> state" where
  "stopRecording s =
     (let s1 = (case mediaRecorder s of
                  None \<Rightarrow> s
                | Some r \<Rightarrow>
                    if r \<noteq> Inactive then
                      s\<lparr>mediaRecorder := Some Inactive,
                        captureCalls := captureCalls s @ [CStop],
                        pendingStop := Suc (pendingStop s)\<rparr>
                    else s);
          s2 = s1\<lparr>statusMessage := js ''Processing audio...'', recordButtonDisabled := False,
                  recordButtonRecording := False, activeControlsHidden := True\<rparr>
      in (resetTimer s2)\<lparr>isRecording := False, isPaused := False\<rparr>)"

section \<open>List management functions\<close>

definition addAudioToDisplay :: "nat \<Rightarrow> int \<Rightarrow> jsstring \<Rightarrow> jsstring \<Rightarrow> state \<Rightarrow> state" where
  "addAudioToDisplay audioUrl durationMs date time s =
     s\<lparr>audioList :=
         \<lparr>item = fresh s, url = audioUrl, name = defaultName durationMs date time\<rparr>
           # audioList s,
       fresh := Suc (fresh s)\<rparr>"

text \<open>
  \<^verbatim>\<open>finishRecording\<close>, the handler of \<^verbatim>\<open>stop\<close>. The blob is the concatenation of the
  chunks. Reading \<^verbatim>\<open>getTracks\<close> of an undefined stream would throw \<^verbatim>\<open>TypeError\<close>.
\<close>

definition finishRecording :: "jsstring \<Rightarrow> jsstring \<Rightarrow> state \<Rightarrow> state" where
  "finishRecording date time s =
     (let audioBlob = concat (audioChunks s);
          audioUrl = fresh s;
          s1 = s\<lparr>objectURLs := (audioUrl, audioBlob) # objectURLs s, fresh := Suc (fresh s)\<rparr>
      in case stream s1 of
           None \<Rightarrow> s1\<lparr>uncaught := uncaught s1 @ [TypeError]\<rparr>
         | Some st \<Rightarrow>
             (let s2 = s1\<lparr>liveStreams := removeAll st (liveStreams s1)\<rparr>;
                  s3 = addAudioToDisplay audioUrl (timeElapsed s2) date time s2
              in s3\<lparr>statusMessage := js ''Ready to record again.''\<rparr>))"

definition revokeObjectURL :: "nat \<Rightarrow> state \<Rightarrow> state" where
  "revokeObjectURL u s =
     s\<lparr>objectURLs := filter (\<lambda>p. fst p \<noteq> u) (objectURLs s), revoked := revoked s @ [u]\<rparr>"

text \<open>
  \<^verbatim>\<open>deleteRecording(itemDiv)\<close>. \<open>confirmed\<close> is the answer to \<^verbatim>\<open>confirm\<close>;
  \<open>e\<close> is the element the delete button belongs to.
\<close>

definition deleteRecording :: "bool \<Rightarrow> entry \<Rightarrow> state \<Rightarrow> state" where
  "deleteRecording confirmed e s =
     (if confirmed then
        (let s1 = revokeObjectURL (url e) s
         in s1\<lparr>audioList := filter (\<lambda>x. item x \<noteq> item e) (audioList s1)\<rparr>)
      else s)"

text \<open>
  \<^verbatim>\<open>downloadRecording(url, filename)\<close>. The link is appended to the body, clicked and
  removed again; what remains of it is the download handed to the browser: the file name
  and the bytes the link resolved to when it was clicked (\<open>None\<close> when the URL had been
  revoked).
\<close>

definition downloadRecording ::
  "(nat \<Rightarrow> nat option) \<Rightarrow> nat \<Rightarrow> jsstring \<Rightarrow> state \<Rightarrow> state" where
  "downloadRecording toUpper u filename s =
     revokeObjectURL u
       (s\<lparr>downloads :=
            downloads s @ [(downloadName toUpper filename, map_of (objectURLs s) u)]\<rparr>)"

section \<open>Events\<close>

text \<open>
  What the browser can deliver to the script: clicks on the three buttons and on the
  buttons of a list element (named by the identity of the element), a tick of a running
  interval, a fragment of audio, and the \<^verbatim>\<open>stop\<close> event of a recorder that was stopped.
  An event whose source does not exist (a disabled button, no running interval, no
  recorder, no queued \<^verbatim>\<open>stop\<close>, an element that is not in the list) changes nothing.
\<close>

datatype event =
    ClickRecord bool int
  | ClickPause int
  | ClickStop
  | Tick int
  | DataAvailable fragment
  | Stopped jsstring jsstring
  | ClickDelete nat bool
  | ClickDownload nat

fun step :: "(nat \<Rightarrow> nat option) \<Rightarrow> event \<Rightarrow> state \<Rightarrow> state" where
  "step toUpper (ClickRecord granted now) s =
     (if recordButtonDisabled s then s
      else if \<not> isRecording s then startRecording granted now s else s)"
| "step toUpper (ClickPause now) s = togglePauseResume now s"
| "step toUpper ClickStop s = stopRecording s"
| "step toUpper (Tick now) s = (if intervals s = [] then s else timerTick now s)"
| "step toUpper (DataAvailable d) s =
     (if mediaRecorder s = None then s else ondataavailable d s)"
| "step toUpper (Stopped date time) s =
     (if pendingStop s = 0 then s
      else finishRecording date time (s\<lparr>pendingStop := pendingStop s - 1\<rparr>))"
| "step toUpper (ClickDelete i confirmed) s =
     (case find (\<lambda>e. item e = i) (audioList s) of
        None \<Rightarrow> s
      | Some e \<Rightarrow> deleteRecording confirmed e s)"
| "step toUpper (ClickDownload i) s =
     (case find (\<lambda>e. item e = i) (audioList s) of
        None \<Rightarrow> s
      | Some e \<Rightarrow> downloadRecording toUpper (url e) (name e) s)"

fun run :: "(nat \<Rightarrow> nat option) \<Rightarrow> event list \<Rightarrow> state \<Rightarrow> state" where
  "run toUpper [] s = s"
| "run toUpper (ev # evs) s = run toUpper evs (step toUpper ev s)"

section \<open>Notions used in the statements\<close>

text \<open>Reading a string of decimal digits (code units 48 to 57) back as a number.\<close>

definition isDigits :: "jsstring \<Rightarrow> bool" where
  "isDigits s = list_all (\<lambda>c. 48 \<le> c \<and> c \<le> 57) s"

definition decimalValue :: "jsstring \<Rightarrow> nat" where
  "decimalValue s = foldl (\<lambda>acc c. 10 * acc + (c - 48)) 0 s"

text \<open>
  \<open>s\<close> is the number \<open>n\<close> in decimal, zero-padded to two digits: two digits when
  \<open>n\<close> is below 100, and no leading zero otherwise.
\<close>

definition zeroPadded2 :: "jsstring \<Rightarrow> nat \<Rightarrow> bool" where
  "zeroPadded2 s n =
     (isDigits s \<and> decimalValue s = n \<and> (if n < 100 then length s = 2 else hd s \<noteq> 48))"

text \<open>The code units of \<^verbatim>\<open>[A-Za-z0-9]\<close>.\<close>

definition alphanumeric :: "nat \<Rightarrow> bool" where
  "alphanumeric ch =
     ((48 \<le> ch \<and> ch \<le> 57) \<or> (65 \<le> ch \<and> ch \<le> 90) \<or> (97 \<le> ch \<and> ch \<le> 122))"

text \<open>
  A few rows of the upper-case table, to evaluate examples with: the sharp s (223) has
  the two-unit upper case \<^verbatim>\<open>SS\<close>, y with diaeresis (255) has 376, the long s (383) has
  the ASCII letter \<^verbatim>\<open>S\<close> (83); every other code unit is left as it is.
\<close>

definition upperExcerpt :: "nat \<Rightarrow> nat option" where
  "upperExcerpt ch =
     (if ch = 223 then None
      else if ch = 255 then Some 376
      else if ch = 383 then Some 83
      else Some ch)"

text \<open>
  The events between the start and the stop of one session: the pause button, ticks of
  the timer and fragments of audio; and the fragments a list of events delivers, in order.
\<close>

fun sessionEvent :: "event \<Rightarrow> bool" where
  "sessionEvent (ClickPause now) = True"
| "sessionEvent (Tick now) = True"
| "sessionEvent (DataAvailable d) = True"
| "sessionEvent ev = False"

fun delivered :: "event list \<Rightarrow> fragment list" where
  "delivered [] = []"
| "delivered (DataAvailable d # evs) = d # delivered evs"
| "delivered (ev # evs) = delivered evs"

text \<open>The recorder that \<^verbatim>\<open>mediaRecorder\<close> refers to is recording or paused.\<close>

definition handleActive :: "state \<Rightarrow> bool" where
  "handleActive s = (mediaRecorder s = Some RecRecording \<or> mediaRecorder s = Some RecPaused)"

text \<open>
  How the flags of the script follow the recorder: \<^verbatim>\<open>isRecording\<close> holds exactly while the
  recorder is active, \<^verbatim>\<open>isPaused\<close> exactly while it is paused, and \<^verbatim>\<open>mediaRecorder\<close> is
  undefined exactly as long as no operation has been invoked on any recorder.
\<close>

definition handleInvariant :: "state \<Rightarrow> bool" where
  "handleInvariant s =
     ((isRecording s = handleActive s)
      \<and> (isPaused s = (mediaRecorder s = Some RecPaused))
      \<and> ((mediaRecorder s = None) = (captureCalls s = [])))"

text \<open>The identities of the list elements are distinct and were all handed out before.\<close>

definition itemsFresh :: "state \<Rightarrow> bool" where
  "itemsFresh s =
     (distinct (map item (audioList s)) \<and> list_all (\<lambda>e. item e < fresh s) (audioList s))"

text \<open>
  Scenarios. A session that is started at time 1000, delivers one fragment and has run
  for five seconds at its last tick; its end; the states they lead to from the blank
  page; and the events of the session of section 8 of the specification: fragments of
  100 and 200 bytes, a pause, a resume, a fragment of 50 bytes.
\<close>

definition oneSession :: "event list" where
  "oneSession = [ClickRecord True 1000, Tick 2000, DataAvailable [1, 2, 3], Tick 6000]"

definition finishSession :: "event list" where
  "finishSession = [ClickStop, Stopped (js ''1/2/2026'') (js ''10:00'')]"

definition idleAfterSession :: state where
  "idleAfterSession = run upperExcerpt (oneSession @ finishSession) blankPage"

definition pausedState :: state where
  "pausedState = run upperExcerpt [ClickRecord True 1000, Tick 2000, ClickPause 2500] blankPage"

definition scenarioEvents :: "event list" where
  "scenarioEvents =
     [DataAvailable (replicate 100 7), DataAvailable (replicate 200 8), ClickPause 3000,
      ClickPause 9000, DataAvailable (replicate 50 9)]"

definition scenarioEnd :: state where
  "scenarioEnd =
     run upperExcerpt
       ([ClickRecord True 0] @ scenarioEvents @ [ClickStop] @ map DataAvailable []
          @ [Stopped (js ''1/2/2026'') (js ''10:00'')])
       blankPage"

section \<open>Decimal numerals and padding\<close>

lemma js_colon: "js '':'' = [58]"
  by (simp add: js_def)

lemma isDigits_digits: "isDigits (digits n)"
proof (induction n rule: digits.induct)
  case (1 n)
  show ?case
  proof (cases "n < 10")
    case True
    then show ?thesis by (subst digits.simps) (simp add: isDigits_def)
  next
    case False
    have "n mod 10 < 10" by simp
    then have "48 + n mod 10 \<le> 57" by linarith
    with False 1 show ?thesis by (subst digits.simps) (simp add: isDigits_def)
  qed
qed

lemma decimalValue_snoc: "decimalValue (s @ [c]) = 10 * decimalValue s + (c - 48)"
  by (simp add: decimalValue_def)

lemma decimalValue_digits: "decimalValue (digits n) = n"
proof (induction n rule: digits.induct)
  case (1 n)
  show ?case
  proof (cases "n < 10")
    case True
    then show ?thesis by (subst digits.simps) (simp add: decimalValue_def)
  next
    case False
    with 1 have "decimalValue (digits (n div 10)) = n div 10" by simp
    with False show ?thesis by (subst digits.simps) (simp add: decimalValue_snoc)
  qed
qed

lemma length_digits_pos: "1 \<le> length (digits n)"
  by (subst digits.simps) simp

lemma length_digits_small: "n < 10 \<Longrightarrow> length (digits n) = 1"
  by (subst digits.simps) simp

lemma length_digits_two: "10 \<le> n \<Longrightarrow> n < 100 \<Longrightarrow> length (digits n) = 2"
  by (subst digits.simps) (simp add: length_digits_small)

lemma length_digits_large: "10 \<le> n \<Longrightarrow> 2 \<le> length (digits n)"
  using length_digits_pos [of "n div 10"] by (subst digits.simps) simp

lemma hd_digits: "0 < n \<Longrightarrow> digits n \<noteq> [] \<and> hd (digits n) \<noteq> 48"
proof (induction n rule: digits.induct)
  case (1 n)
  show ?case
  proof (cases "n < 10")
    case True
    with 1(2) show ?thesis by (subst (1 2) digits.simps) simp
  next
    case False
    then have "0 < n div 10" by simp
    with 1(1) False have "digits (n div 10) \<noteq> [] \<and> hd (digits (n div 10)) \<noteq> 48" by simp
    with False show ?thesis by (subst (1 2) digits.simps) simp
  qed
qed

lemma decimalValue_zeros: "decimalValue (replicate k 48 @ s) = decimalValue s"
  by (induction k) (simp_all add: decimalValue_def)

lemma decimalValue_padStart2: "decimalValue (padStart2 s) = decimalValue s"
  by (simp add: padStart2_def decimalValue_zeros)

lemma isDigits_padStart2: "isDigits s \<Longrightarrow> isDigits (padStart2 s)"
  by (auto simp: padStart2_def isDigits_def list_all_iff)

lemma length_padStart2: "length (padStart2 s) = max 2 (length s)"
  by (simp add: padStart2_def)

lemma padStart2_long: "2 \<le> length s \<Longrightarrow> padStart2 s = s"
  by (simp add: padStart2_def)

lemma zeroPadded2_padStart2: "zeroPadded2 (padStart2 (digits n)) n"
proof -
  have d: "isDigits (padStart2 (digits n))"
    by (simp add: isDigits_padStart2 isDigits_digits)
  have v: "decimalValue (padStart2 (digits n)) = n"
    by (simp add: decimalValue_padStart2 decimalValue_digits)
  have l: "length (padStart2 (digits n)) = 2" if "n < 100"
  proof (cases "n < 10")
    case True
    then show ?thesis by (simp add: length_padStart2 length_digits_small)
  next
    case False
    with that show ?thesis by (simp add: length_padStart2 length_digits_two)
  qed
  have h: "hd (padStart2 (digits n)) \<noteq> 48" if "\<not> n < 100"
  proof -
    from that have "2 \<le> length (digits n)" by (simp add: length_digits_large)
    then have "padStart2 (digits n) = digits n" by (rule padStart2_long)
    moreover from that have "hd (digits n) \<noteq> 48" using hd_digits [of n] by simp
    ultimately show ?thesis by simp
  qed
  show ?thesis using d v l h by (simp add: zeroPadded2_def)
qed

lemma String_nonneg: "0 \<le> k \<Longrightarrow> String k = digits (nat k)"
  by (simp add: String_def)

lemma js_rem_nonneg: "0 \<le> a \<Longrightarrow> 0 < b \<Longrightarrow> js_rem a b = a mod b"
  by (cases "a = 0") (simp_all add: js_rem_def)

section \<open>The timer display\<close>

lemma timerDisplay_nonneg:
  assumes "0 \<le> ms"
  shows "timerDisplay ms =
           padStart2 (digits (nat (ms div 1000) div 3600)) @ [58]
           @ padStart2 (digits (nat (ms div 1000) mod 3600 div 60)) @ [58]
           @ padStart2 (digits (nat (ms div 1000) mod 60))"
proof -
  define t where "t = ms div 1000"
  have t: "0 \<le> t" using assms by (simp add: t_def)
  have h: "String (t div 3600) = digits (nat t div 3600)"
    using t by (simp add: String_nonneg nat_div_distrib)
  have m: "String (js_rem t 3600 div 60) = digits (nat t mod 3600 div 60)"
    using t by (simp add: js_rem_nonneg String_nonneg nat_div_distrib nat_mod_distrib)
  have s: "String (js_rem t 60) = digits (nat t mod 60)"
    using t by (simp add: js_rem_nonneg String_nonneg nat_mod_distrib)
  show ?thesis
    unfolding timerDisplay_def Let_def t_def [symmetric] h m s js_colon by simp
qed

text \<open>
  Claim C9. For every elapsed time (a duration, so not negative) the timer shows
  \<open>floor(elapsedMs/1000)\<close> split into hours, minutes and seconds, each zero-padded to
  two digits and joined by colons; the hours are not reduced modulo 24. 3725000 ms is
  shown as 01:02:05, 0 ms as 00:00:00 and 25 hours as 25:00:00.
\<close>

theorem timer_display_hhmmss:
  "(0 \<le> elapsedMs \<longrightarrow>
      (\<exists>hh mm ss.
         timerDisplay elapsedMs = hh @ js '':'' @ mm @ js '':'' @ ss
         \<and> zeroPadded2 hh (nat (elapsedMs div 1000) div 3600)
         \<and> zeroPadded2 mm (nat (elapsedMs div 1000) mod 3600 div 60)
         \<and> zeroPadded2 ss (nat (elapsedMs div 1000) mod 60)))
   \<and> timerDisplay 3725000 = js ''01:02:05''
   \<and> timerDisplay 0 = js ''00:00:00''
   \<and> timerDisplay (3600000 * 25) = js ''25:00:00''"
proof -
  have g: "\<exists>hh mm ss.
         timerDisplay elapsedMs = hh @ js '':'' @ mm @ js '':'' @ ss
         \<and> zeroPadded2 hh (nat (elapsedMs div 1000) div 3600)
         \<and> zeroPadded2 mm (nat (elapsedMs div 1000) mod 3600 div 60)
         \<and> zeroPadded2 ss (nat (elapsedMs div 1000) mod 60)" if "0 \<le> elapsedMs"
    using timerDisplay_nonneg [OF that] zeroPadded2_padStart2 js_colon by metis
  have e1: "timerDisplay 3725000 = js ''01:02:05''" by code_simp
  have e2: "timerDisplay 0 = js ''00:00:00''" by code_simp
  have e3: "timerDisplay (3600000 * 25) = js ''25:00:00''" by code_simp
  from g e1 e2 e3 show ?thesis by blast
qed

theorem timer_display_hhmmss_witness:
  "(0::int) \<le> 360000000
   \<and> (\<exists>hh mm ss. timerDisplay 360000000 = hh @ js '':'' @ mm @ js '':'' @ ss
         \<and> zeroPadded2 hh 100 \<and> zeroPadded2 mm 0 \<and> zeroPadded2 ss 0)"
  using timer_display_hhmmss [of 360000000] by simp

section \<open>The default name\<close>

lemma defaultName_nonneg:
  assumes "0 \<le> ms"
  shows "defaultName ms date time =
           js ''Recording '' @ date @ js '' '' @ time @ js '' (''
           @ padStart2 (digits (nat (ms div 1000) div 60)) @ js '':''
           @ padStart2 (digits (nat (ms div 1000) mod 60)) @ js '')''"
proof -
  define t where "t = ms div 1000"
  have t: "0 \<le> t" using assms by (simp add: t_def)
  have m: "String (t div 60) = digits (nat t div 60)"
    using t by (simp add: String_nonneg nat_div_distrib)
  have s: "String (js_rem t 60) = digits (nat t mod 60)"
    using t by (simp add: js_rem_nonneg String_nonneg nat_mod_distrib)
  show ?thesis
    unfolding defaultName_def Let_def t_def [symmetric] m s by simp
qed

text \<open>
  Claim C10. In the default name \<^verbatim>\<open>Recording {date} {time} (MM:SS)\<close> the minutes field is
  the total number of whole minutes of the duration, zero-padded to two digits, not
  reduced modulo 60, and there is no hours field: from one hour on the field shows 60 or
  more. A recording of 61 minutes is named with \<^verbatim>\<open>(61:00)\<close>, where the timer shows
  \<^verbatim>\<open>01:01:00\<close>.
\<close>

theorem default_name_total_minutes:
  "(0 \<le> durationMs \<longrightarrow>
      (\<exists>mm ss.
         defaultName durationMs date time
           = js ''Recording '' @ date @ js '' '' @ time @ js '' ('' @ mm @ js '':'' @ ss
               @ js '')''
         \<and> zeroPadded2 mm (nat (durationMs div 1000) div 60)
         \<and> zeroPadded2 ss (nat (durationMs div 1000) mod 60)
         \<and> (3600000 \<le> durationMs \<longrightarrow> 60 \<le> decimalValue mm)))
   \<and> defaultName (61 * 60 * 1000) date time
       = js ''Recording '' @ date @ js '' '' @ time @ js '' (61:00)''
   \<and> timerDisplay (61 * 60 * 1000) = js ''01:01:00''"
proof -
  have g: "\<exists>mm ss.
         defaultName durationMs date time
           = js ''Recording '' @ date @ js '' '' @ time @ js '' ('' @ mm @ js '':'' @ ss
               @ js '')''
         \<and> zeroPadded2 mm (nat (durationMs div 1000) div 60)
         \<and> zeroPadded2 ss (nat (durationMs div 1000) mod 60)
         \<and> (3600000 \<le> durationMs \<longrightarrow> 60 \<le> decimalValue mm)" if "0 \<le> durationMs"
  proof -
    let ?mm = "padStart2 (digits (nat (durationMs div 1000) div 60))"
    have v: "decimalValue ?mm = nat (durationMs div 1000) div 60"
      by (simp add: decimalValue_padStart2 decimalValue_digits)
    have big: "60 \<le> decimalValue ?mm" if h: "3600000 \<le> durationMs"
    proof -
      from h have "3600 \<le> durationMs div 1000" by simp
      then have "3600 \<le> nat (durationMs div 1000)" by simp
      then have "60 \<le> nat (durationMs div 1000) div 60" by simp
      with v show ?thesis by simp
    qed
    show ?thesis
      using defaultName_nonneg [OF that, of date time] zeroPadded2_padStart2 big by blast
  qed
  have e1: "defaultName (61 * 60 * 1000) date time
       = js ''Recording '' @ date @ js '' '' @ time @ js '' (61:00)''"
    by (simp add: defaultName_def Let_def) code_simp
  have e2: "timerDisplay (61 * 60 * 1000) = js ''01:01:00''" by code_simp
  from g e1 e2 show ?thesis by blast
qed

theorem default_name_total_minutes_witness:
  "(3600000::int) \<le> 7325000
   \<and> (\<exists>mm ss. defaultName 7325000 (js ''1/2/2026'') (js ''10:00:00'')
                 = js ''Recording 1/2/2026 10:00:00 ('' @ mm @ js '':'' @ ss @ js '')''
         \<and> zeroPadded2 mm 122 \<and> zeroPadded2 ss 5 \<and> 60 \<le> decimalValue mm)"
  using default_name_total_minutes [of 7325000 "js ''1/2/2026''" "js ''10:00:00''"]
  by (simp add: js_def)

section \<open>The download file name\<close>

lemma set_classMembers: "set classMembers = {97..122} \<union> {48..57}"
  unfolding classMembers_def set_append set_upt by auto

lemma canonicalize_member:
  assumes "a \<in> set classMembers"
  shows "canonicalize f a = asciiUpper a" and "asciiUpper a < 128"
  using assms by (auto simp: set_classMembers canonicalize_def asciiUpper_def)

lemma canonicalize_large: "128 \<le> ch \<Longrightarrow> 128 \<le> canonicalize f ch"
  by (auto simp: canonicalize_def split: option.splits)

text \<open>
  Ignoring case adds exactly the capital letters: no code unit outside ASCII is
  canonicalized to an ASCII letter, whatever the upper-case table says.
\<close>

lemma matchesPattern_iff: "matchesPattern f ch \<longleftrightarrow> \<not> alphanumeric ch"
proof (cases "ch < 128")
  case True
  then have c: "canonicalize f ch = asciiUpper ch"
    by (simp add: canonicalize_def)
  show ?thesis
  proof
    assume m: "matchesPattern f ch"
    show "\<not> alphanumeric ch"
    proof
      assume a: "alphanumeric ch"
      define a' where "a' = (if 65 \<le> ch \<and> ch \<le> 90 then ch + 32 else ch)"
      have mem: "a' \<in> set classMembers"
        using a by (auto simp: a'_def alphanumeric_def set_classMembers)
      have "asciiUpper a' = asciiUpper ch"
        using a by (auto simp: a'_def alphanumeric_def asciiUpper_def)
      then have "canonicalize f ch = canonicalize f a'"
        using c canonicalize_member(1) [OF mem] by simp
      then have "canonicalize f ch \<in> set (map (canonicalize f) classMembers)"
        using mem by auto
      with m show False by (simp add: matchesPattern_def)
    qed
  next
    assume n: "\<not> alphanumeric ch"
    have "canonicalize f ch \<noteq> canonicalize f a" if "a \<in> set classMembers" for a
    proof -
      have "asciiUpper ch \<noteq> asciiUpper a"
        using that n by (auto simp: set_classMembers alphanumeric_def asciiUpper_def)
      then show ?thesis using c canonicalize_member(1) [OF that] by simp
    qed
    then show "matchesPattern f ch" by (auto simp: matchesPattern_def)
  qed
next
  case False
  then have big: "128 \<le> canonicalize f ch" by (simp add: canonicalize_large)
  have "canonicalize f ch \<noteq> canonicalize f a" if "a \<in> set classMembers" for a
    using canonicalize_member(1) [OF that, where f = f] canonicalize_member(2) [OF that] big
    by simp
  then have "matchesPattern f ch" by (auto simp: matchesPattern_def)
  moreover have "\<not> alphanumeric ch" using False by (auto simp: alphanumeric_def)
  ultimately show ?thesis by simp
qed

lemma replaceAll_map:
  "replaceAll f s = map (\<lambda>ch. if alphanumeric ch then ch else 95) s"
  by (induction s) (simp_all add: matchesPattern_iff js_def)

text \<open>
  Claim C7, amended. For every name the download file name is the name with each code
  unit outside \<^verbatim>\<open>[A-Za-z0-9]\<close> replaced by an underscore (code unit 95), followed by
  \<^verbatim>\<open>.webm\<close>. The name \<^verbatim>\<open>My Recording! #1\<close> gives \<^verbatim>\<open>My_Recording___1.webm\<close>: the three
  characters between \<^verbatim>\<open>Recording\<close> and \<^verbatim>\<open>1\<close> give three underscores.
\<close>

theorem download_name_sanitized:
  "downloadName toUpper filename
     = map (\<lambda>ch. if alphanumeric ch then ch else 95) filename @ js ''.webm''
   \<and> length (downloadName toUpper filename) = length filename + 5
   \<and> downloadName toUpper (js ''My Recording! #1'') = js ''My_Recording___1.webm''"
  by (simp add: downloadName_def replaceAll_map) (simp add: js_def alphanumeric_def)

theorem download_name_sanitized_witness:
  "downloadName upperExcerpt [383, 8490, 223, 255, 75, 107, 32, 55]
     = [95, 95, 95, 95, 75, 107, 95, 55] @ js ''.webm''"
  using download_name_sanitized [of upperExcerpt "[383, 8490, 223, 255, 75, 107, 32, 55]"]
  by (simp add: alphanumeric_def)

text \<open>
  The file name the specification gives for \<^verbatim>\<open>My Recording! #1\<close>, with two underscores
  before the \<^verbatim>\<open>1\<close>, is not the one the script produces.
\<close>

theorem download_name_counterexample:
  "downloadName upperExcerpt (js ''My Recording! #1'') \<noteq> js ''My_Recording__1.webm''"
  by (simp add: downloadName_def replaceAll_map js_def alphanumeric_def)

section \<open>One session: the payload\<close>

lemmas control_defs =
  startRecording_def togglePauseResume_def stopRecording_def startTimer_def timerTick_def
  clearInterval_def resetTimer_def ondataavailable_def recorderPause_def recorderResume_def

lemma step_session:
  assumes "sessionEvent ev" and "handleActive s"
  shows "handleActive (step f ev s)"
    and "stream (step f ev s) = stream s"
    and "audioList (step f ev s) = audioList s"
    and "pendingStop (step f ev s) = pendingStop s"
    and "audioChunks (step f ev s) = audioChunks s @ delivered [ev]"
  using assms
  by (cases ev; auto simp: handleActive_def control_defs Let_def split: option.splits)+

lemma run_session:
  assumes "list_all sessionEvent evs" and "handleActive s"
  shows "handleActive (run f evs s) \<and> stream (run f evs s) = stream s
         \<and> audioList (run f evs s) = audioList s
         \<and> pendingStop (run f evs s) = pendingStop s
         \<and> audioChunks (run f evs s) = audioChunks s @ delivered evs"
  using assms
proof (induction evs arbitrary: s)
  case Nil
  then show ?case by simp
next
  case (Cons ev evs)
  from Cons.prems have ev: "sessionEvent ev" and evs: "list_all sessionEvent evs" by simp_all
  note st = step_session [OF ev Cons.prems(2), of f]
  have d: "delivered [ev] @ delivered evs = delivered (ev # evs)"
    by (cases ev) simp_all
  from Cons.IH [OF evs st(1)] st(2-5) d show ?case by simp
qed

lemma run_append: "run f (xs @ ys) s = run f ys (run f xs s)"
  by (induction xs arbitrary: s) simp_all

lemma run_flush:
  assumes "mediaRecorder s \<noteq> None"
  shows "run f (map DataAvailable ds) s = s\<lparr>audioChunks := audioChunks s @ ds\<rparr>"
  using assms
  by (induction ds arbitrary: s) (simp_all add: ondataavailable_def)

lemma start_granted:
  "handleActive (startRecording True now s)"
  "audioChunks (startRecording True now s) = []"
  "stream (startRecording True now s) \<noteq> None"
  "audioList (startRecording True now s) = audioList s"
  by (simp_all add: handleActive_def control_defs Let_def)

lemma stop_active:
  assumes "handleActive s"
  shows "pendingStop (stopRecording s) = Suc (pendingStop s)"
    and "mediaRecorder (stopRecording s) = Some Inactive"
    and "audioChunks (stopRecording s) = audioChunks s"
    and "stream (stopRecording s) = stream s"
    and "audioList (stopRecording s) = audioList s"
  using assms
  by (auto simp: handleActive_def control_defs Let_def split: option.splits)

lemma finish_entry:
  assumes "stream s \<noteq> None"
  shows "\<exists>e. audioList (finishRecording date time s) = e # audioList s
            \<and> map_of (objectURLs (finishRecording date time s)) (url e)
                = Some (concat (audioChunks s))"
  using assms
  by (auto simp: finishRecording_def addAudioToDisplay_def Let_def)

text \<open>
  Claim C2. A session is started from a state in which the record button can be used;
  then come any events of a session (pause and resume clicks, ticks, fragments), the stop
  click, the fragments the recorder still flushes, and the \<^verbatim>\<open>stop\<close> event. The list then
  has exactly one new element, at its front, and the object URL of that element resolves
  to the concatenation of all delivered fragments in the order of their delivery, each
  one once. In the scenario of the specification (100 and 200 bytes, pause, resume, 50
  bytes, stop) the list has one element with a payload of 350 bytes.
\<close>

theorem payload_is_concatenation:
  assumes "list_all sessionEvent evs"
    and "\<not> isRecording s0" and "\<not> recordButtonDisabled s0"
  shows "\<exists>e. audioList
               (run toUpper
                  ([ClickRecord True now] @ evs @ [ClickStop] @ map DataAvailable flushed
                     @ [Stopped date time]) s0)
              = e # audioList s0
            \<and> map_of
                 (objectURLs
                    (run toUpper
                       ([ClickRecord True now] @ evs @ [ClickStop] @ map DataAvailable flushed
                          @ [Stopped date time]) s0))
                 (url e)
              = Some (concat (delivered evs @ flushed))"
proof -
  define s1 where "s1 = startRecording True now s0"
  define s2 where "s2 = run toUpper evs s1"
  define s3 where "s3 = stopRecording s2"
  define s4 where "s4 = s3\<lparr>audioChunks := audioChunks s3 @ flushed\<rparr>"
  define s5 where "s5 = s4\<lparr>pendingStop := pendingStop s4 - 1\<rparr>"
  have r1: "step toUpper (ClickRecord True now) s0 = s1"
    using assms(2,3) by (simp add: s1_def)
  have a1: "handleActive s1" by (simp add: s1_def start_granted)
  note i2 = run_session [OF assms(1) a1, of toUpper, folded s2_def]
  have c2: "audioChunks s2 = delivered evs"
    using i2 by (simp add: s1_def start_granted)
  have st2: "stream s2 \<noteq> None"
    using i2 by (simp add: s1_def start_granted)
  have l2: "audioList s2 = audioList s0"
    using i2 by (simp add: s1_def start_granted)
  have a2: "handleActive s2" using i2 by simp
  note i3 = stop_active [OF a2, folded s3_def]
  have r4: "run toUpper (map DataAvailable flushed) s3 = s4"
    using i3(2) by (simp add: run_flush s4_def)
  have p4: "pendingStop s4 \<noteq> 0" using i3(1) by (simp add: s4_def)
  have r5: "step toUpper (Stopped date time) s4 = finishRecording date time s5"
    using p4 by (simp add: s5_def)
  have st5: "stream s5 \<noteq> None" using st2 i3(4) by (simp add: s5_def s4_def)
  have c5: "audioChunks s5 = delivered evs @ flushed"
    using c2 i3(3) by (simp add: s5_def s4_def)
  have l5: "audioList s5 = audioList s0"
    using l2 i3(5) by (simp add: s5_def s4_def)
  have whole: "run toUpper
                  ([ClickRecord True now] @ evs @ [ClickStop] @ map DataAvailable flushed
                     @ [Stopped date time]) s0 = finishRecording date time s5"
    using r1 r4 r5 by (simp add: run_append s2_def s3_def)
  from finish_entry [OF st5, of date time] show ?thesis
    unfolding whole c5 l5 by simp
qed

theorem payload_is_concatenation_witness:
  "list_all sessionEvent scenarioEvents \<and> \<not> isRecording blankPage
   \<and> \<not> recordButtonDisabled blankPage
   \<and> (\<exists>e. audioList scenarioEnd = [e]
            \<and> map_option length (map_of (objectURLs scenarioEnd) (url e)) = Some 350)"
proof -
  have h1: "list_all sessionEvent scenarioEvents"
    by (simp add: scenarioEvents_def)
  have h2: "\<not> isRecording blankPage" and h3: "\<not> recordButtonDisabled blankPage"
    by (simp_all add: blankPage_def)
  have l: "audioList blankPage = []" by (simp add: blankPage_def)
  have d: "length (concat (delivered scenarioEvents @ [])) = 350"
    by (simp add: scenarioEvents_def)
  from payload_is_concatenation
         [OF h1 h2 h3, of upperExcerpt 0 "[]" "js ''1/2/2026''" "js ''10:00''"]
  obtain e where "audioList scenarioEnd = e # audioList blankPage"
    and "map_of (objectURLs scenarioEnd) (url e)
           = Some (concat (delivered scenarioEvents @ []))"
    unfolding scenarioEnd_def by blast
  with l d have "audioList scenarioEnd = [e]
      \<and> map_option length (map_of (objectURLs scenarioEnd) (url e)) = Some 350"
    by simp
  with h1 h2 h3 show ?thesis by blast
qed

section \<open>One session: the duration\<close>

text \<open>
  \<^verbatim>\<open>stopRecording\<close> resets \<^verbatim>\<open>timeElapsed\<close> before the \<^verbatim>\<open>stop\<close> event is handled, so the
  duration that \<^verbatim>\<open>finishRecording\<close> reads is 0, whatever the session accumulated.
\<close>

lemma finish_after_stop_duration:
  assumes "stream s \<noteq> None"
  shows "map name (audioList (finishRecording date time (stopRecording s)))
           = defaultName 0 date time # map name (audioList s)"
proof -
  obtain st where st: "stream s = Some st" using assms by auto
  show ?thesis
  proof (cases "mediaRecorder s")
    case None
    with st show ?thesis
      by (cases "timerInterval s")
         (simp_all add: control_defs finishRecording_def addAudioToDisplay_def Let_def)
  next
    case (Some r)
    with st show ?thesis
      by (cases r; cases "timerInterval s")
         (simp_all add: control_defs finishRecording_def addAudioToDisplay_def Let_def)
  qed
qed

text \<open>
  Claim C1. The duration handed to the list at the end of a session should be the time
  accumulated while recording. In the session \<open>oneSession\<close> the timer has reached 5000 ms
  when the stop button is clicked, and the name of the new element ends in
  \<^verbatim>\<open>(00:00)\<close>, the name of a duration of 0 ms, where 5000 ms would give \<^verbatim>\<open>(00:05)\<close>.
\<close>

theorem duration_lost_at_finish:
  "timeElapsed (run upperExcerpt oneSession blankPage) = 5000
   \<and> isRecording (run upperExcerpt oneSession blankPage)
   \<and> map name (audioList (run upperExcerpt (oneSession @ finishSession) blankPage))
       = [js ''Recording 1/2/2026 10:00 (00:00)'']
   \<and> defaultName 5000 (js ''1/2/2026'') (js ''10:00'') = js ''Recording 1/2/2026 10:00 (00:05)''"
  by code_simp

section \<open>The capture handle\<close>

lemma handleInvariant_step:
  assumes "handleInvariant s"
  shows "handleInvariant (step f ev s)"
proof (cases ev)
  case (ClickRecord granted now)
  with assms show ?thesis
    by (auto simp: handleInvariant_def handleActive_def control_defs Let_def)
next
  case (ClickPause now)
  show ?thesis
  proof (cases "mediaRecorder s")
    case None
    with assms ClickPause show ?thesis by (simp add: togglePauseResume_def)
  next
    case (Some r)
    with assms ClickPause show ?thesis
      by (cases r; cases "timerInterval s")
         (auto simp: handleInvariant_def handleActive_def control_defs Let_def)
  qed
next
  case ClickStop
  show ?thesis
  proof (cases "mediaRecorder s")
    case None
    with assms ClickStop show ?thesis
      by (cases "timerInterval s")
         (auto simp: handleInvariant_def handleActive_def control_defs Let_def)
  next
    case (Some r)
    with assms ClickStop show ?thesis
      by (cases r; cases "timerInterval s")
         (auto simp: handleInvariant_def handleActive_def control_defs Let_def)
  qed
next
  case (Tick now)
  with assms show ?thesis
    by (auto simp: handleInvariant_def handleActive_def control_defs Let_def)
next
  case (DataAvailable d)
  with assms show ?thesis
    by (auto simp: handleInvariant_def handleActive_def control_defs Let_def)
next
  case (Stopped date time)
  with assms show ?thesis
    by (cases "stream s")
       (auto simp: handleInvariant_def handleActive_def finishRecording_def
          addAudioToDisplay_def Let_def)
next
  case (ClickDelete i confirmed)
  with assms show ?thesis
    by (cases "find (\<lambda>e. item e = i) (audioList s)")
       (auto simp: handleInvariant_def handleActive_def deleteRecording_def
          revokeObjectURL_def Let_def)
next
  case (ClickDownload i)
  with assms show ?thesis
    by (cases "find (\<lambda>e. item e = i) (audioList s)")
       (auto simp: handleInvariant_def handleActive_def downloadRecording_def
          revokeObjectURL_def Let_def)
qed

lemma handleInvariant_run:
  "handleInvariant s \<Longrightarrow> handleInvariant (run f evs s)"
  by (induction evs arbitrary: s) (simp_all add: handleInvariant_step)

lemma handleInvariant_initial: "initial s \<Longrightarrow> handleInvariant s"
  by (simp add: initial_def handleInvariant_def handleActive_def)

text \<open>
  Claim C4, amended. In every state the script can reach, the session is recording or
  paused exactly when the recorder behind the capture handle is active (recording or
  paused), and it is paused exactly when that recorder is paused. The handle itself is
  undefined only until the first session starts: nothing clears it, and after the
  finished-recording event it still refers to the recorder, which is then inactive.
\<close>

theorem capture_handle_active_iff_session:
  assumes "initial s0"
  shows "isRecording (run toUpper evs s0) = handleActive (run toUpper evs s0)
     \<and> isPaused (run toUpper evs s0) = (mediaRecorder (run toUpper evs s0) = Some RecPaused)
     \<and> (mediaRecorder (run toUpper evs s0) = None) = (captureCalls (run toUpper evs s0) = [])"
proof -
  from assms have "handleInvariant (run toUpper evs s0)"
    by (simp add: handleInvariant_initial handleInvariant_run)
  then show ?thesis by (simp add: handleInvariant_def)
qed

theorem capture_handle_active_iff_session_witness:
  "initial blankPage
   \<and> \<not> isRecording (run upperExcerpt (oneSession @ finishSession) blankPage)
   \<and> \<not> isPaused (run upperExcerpt (oneSession @ finishSession) blankPage)
   \<and> captureCalls (run upperExcerpt (oneSession @ finishSession) blankPage) \<noteq> []
   \<and> mediaRecorder (run upperExcerpt (oneSession @ finishSession) blankPage) = Some Inactive"
proof -
  have i: "initial blankPage" by (simp add: initial_def blankPage_def)
  have m: "mediaRecorder (run upperExcerpt (oneSession @ finishSession) blankPage)
             = Some Inactive"
    by code_simp
  from i m capture_handle_active_iff_session [OF i, of upperExcerpt "oneSession @ finishSession"]
  show ?thesis by (simp add: handleActive_def)
qed

text \<open>
  After a whole session the script is idle again, with no \<^verbatim>\<open>stop\<close> event pending, and the
  capture handle is still defined.
\<close>

theorem capture_handle_counterexample:
  "initial blankPage
   \<and> mediaRecorder (run upperExcerpt (oneSession @ finishSession) blankPage) \<noteq> None
   \<and> \<not> isRecording (run upperExcerpt (oneSession @ finishSession) blankPage)
   \<and> \<not> isPaused (run upperExcerpt (oneSession @ finishSession) blankPage)
   \<and> pendingStop (run upperExcerpt (oneSession @ finishSession) blankPage) = 0"
  by code_simp

section \<open>The pause button\<close>

text \<open>
  Claim C5, amended. The pause control is a toggle. Before any session has started
  (no capture handle) it is ignored: the state is unchanged and no operation is invoked
  on a recorder. It never alters the elapsed time or whether a session is running.
  While the session is paused it is not ignored: it invokes resume on the recorder, the
  session is recording again, and the timer restarts from the elapsed time it had kept.
\<close>

theorem pause_is_a_toggle:
  "(mediaRecorder s = None \<longrightarrow> togglePauseResume now s = s)
   \<and> timeElapsed (togglePauseResume now s) = timeElapsed s
   \<and> isRecording (togglePauseResume now s) = isRecording s
   \<and> (isPaused s \<and> mediaRecorder s = Some RecPaused \<longrightarrow>
        \<not> isPaused (togglePauseResume now s)
        \<and> mediaRecorder (togglePauseResume now s) = Some RecRecording
        \<and> captureCalls (togglePauseResume now s) = captureCalls s @ [CResume]
        \<and> startTime (togglePauseResume now s) = now - timeElapsed s
        \<and> intervals (togglePauseResume now s) \<noteq> [])"
proof -
  have a: "togglePauseResume now s = s" if "mediaRecorder s = None"
    using that by (simp add: togglePauseResume_def)
  have b: "timeElapsed (togglePauseResume now s) = timeElapsed s"
    by (cases "mediaRecorder s"; cases "timerInterval s")
       (auto simp: control_defs Let_def)
  have c: "isRecording (togglePauseResume now s) = isRecording s"
    by (cases "mediaRecorder s"; cases "timerInterval s")
       (auto simp: control_defs Let_def)
  have d: "\<not> isPaused (togglePauseResume now s)
        \<and> mediaRecorder (togglePauseResume now s) = Some RecRecording
        \<and> captureCalls (togglePauseResume now s) = captureCalls s @ [CResume]
        \<and> startTime (togglePauseResume now s) = now - timeElapsed s
        \<and> intervals (togglePauseResume now s) \<noteq> []"
    if "isPaused s" and "mediaRecorder s = Some RecPaused"
    using that by (simp add: control_defs Let_def)
  from a b c d show ?thesis by blast
qed

theorem pause_is_a_toggle_witness:
  "isPaused pausedState \<and> mediaRecorder pausedState = Some RecPaused
   \<and> timeElapsed (togglePauseResume 4000 pausedState) = 1000
   \<and> \<not> isPaused (togglePauseResume 4000 pausedState)
   \<and> startTime (togglePauseResume 4000 pausedState) = 3000
   \<and> mediaRecorder blankPage = None \<and> togglePauseResume 4000 blankPage = blankPage"
proof -
  have p: "isPaused pausedState" "mediaRecorder pausedState = Some RecPaused"
    "timeElapsed pausedState = 1000"
    by code_simp+
  have n: "mediaRecorder blankPage = None" by (simp add: blankPage_def)
  from p n pause_is_a_toggle [of pausedState 4000] pause_is_a_toggle [of blankPage 4000]
  show ?thesis by simp
qed

text \<open>
  In a paused session the pause control is not ignored: the session is recording
  afterwards.
\<close>

theorem pause_while_paused_counterexample:
  "isRecording pausedState \<and> isPaused pausedState
   \<and> \<not> isPaused (togglePauseResume 4000 pausedState)
   \<and> mediaRecorder pausedState = Some RecPaused
   \<and> mediaRecorder (togglePauseResume 4000 pausedState) = Some RecRecording"
  by code_simp

text \<open>
  After a session has ended the capture handle is still defined, so the guard of
  \<^verbatim>\<open>togglePauseResume\<close> lets the call through: pause is invoked on the inactive recorder
  and throws.
\<close>

lemma pause_after_session_throws:
  "captureCalls (togglePauseResume 9000 idleAfterSession)
     = captureCalls idleAfterSession @ [CPause]
   \<and> uncaught (togglePauseResume 9000 idleAfterSession) = [InvalidStateError]
   \<and> uncaught idleAfterSession = []"
  by code_simp

section \<open>The stop button\<close>

lemma stop_idem: "stopRecording (stopRecording s) = stopRecording s"
proof (cases "mediaRecorder s")
  case None
  then show ?thesis
    by (cases "timerInterval s") (simp_all add: control_defs Let_def)
next
  case (Some r)
  then show ?thesis
    by (cases r; cases "timerInterval s") (simp_all add: control_defs Let_def)
qed

lemma stop_inactive:
  assumes "\<not> handleActive s"
  shows "stopRecording s =
           s\<lparr>statusMessage := js ''Processing audio...'', recordButtonDisabled := False,
             recordButtonRecording := False, activeControlsHidden := True,
             intervals := (case timerInterval s of None \<Rightarrow> intervals s
                           | Some i \<Rightarrow> removeAll i (intervals s)),
             timerText := js ''00:00:00'', timerActive := False, timeElapsed := 0,
             isRecording := False, isPaused := False\<rparr>"
proof (cases "mediaRecorder s")
  case None
  then show ?thesis
    by (cases "timerInterval s") (simp_all add: control_defs Let_def)
next
  case (Some r)
  with assms show ?thesis
    by (cases r; cases "timerInterval s") (simp_all add: control_defs Let_def handleActive_def)
qed

lemma stop_after_finish:
  assumes "stream s \<noteq> None"
  shows "stopRecording (finishRecording date time (stopRecording s))
           = (finishRecording date time (stopRecording s))
               \<lparr>statusMessage := js ''Processing audio...''\<rparr>"
proof -
  obtain st where st: "stream s = Some st" using assms by auto
  show ?thesis
  proof (cases "mediaRecorder s")
    case None
    with st show ?thesis
      by (cases "timerInterval s")
         (simp_all add: control_defs finishRecording_def addAudioToDisplay_def Let_def)
  next
    case (Some r)
    with st show ?thesis
      by (cases r; cases "timerInterval s")
         (simp_all add: control_defs finishRecording_def addAudioToDisplay_def Let_def)
  qed
qed

text \<open>
  Claim C6, amended. Stopping is idempotent: a second stop in a row changes nothing.
  Outside an active session a stop invokes nothing on the recorder, queues no
  \<^verbatim>\<open>stop\<close> event and leaves the handle, the chunks, the list and the object URLs as they
  are, but it is not a no-op: it sets the status message to \<^verbatim>\<open>Processing audio...\<close> and
  resets the buttons, the timer display and the elapsed time. In the idle state that
  follows a stopped and finished session it changes the status message and nothing else.
\<close>

theorem stop_is_idempotent:
  "stopRecording (stopRecording s) = stopRecording s
   \<and> (\<not> handleActive s \<longrightarrow>
        stopRecording s =
           s\<lparr>statusMessage := js ''Processing audio...'', recordButtonDisabled := False,
             recordButtonRecording := False, activeControlsHidden := True,
             intervals := (case timerInterval s of None \<Rightarrow> intervals s
                           | Some i \<Rightarrow> removeAll i (intervals s)),
             timerText := js ''00:00:00'', timerActive := False, timeElapsed := 0,
             isRecording := False, isPaused := False\<rparr>)
   \<and> (stream s \<noteq> None \<longrightarrow>
        stopRecording (finishRecording date time (stopRecording s))
          = (finishRecording date time (stopRecording s))
              \<lparr>statusMessage := js ''Processing audio...''\<rparr>)"
  using stop_idem stop_inactive stop_after_finish by blast

theorem stop_is_idempotent_witness:
  "\<not> handleActive idleAfterSession \<and> stream idleAfterSession \<noteq> None
   \<and> statusMessage (stopRecording (finishRecording [] [] (stopRecording idleAfterSession)))
       = js ''Processing audio...''
   \<and> stopRecording idleAfterSession
       = idleAfterSession\<lparr>statusMessage := js ''Processing audio...''\<rparr>"
proof -
  have h: "\<not> handleActive idleAfterSession" by code_simp
  have st: "stream idleAfterSession \<noteq> None" by code_simp
  from stop_is_idempotent [of idleAfterSession "[]" "[]"] st
  have "stopRecording (finishRecording [] [] (stopRecording idleAfterSession))
          = (finishRecording [] [] (stopRecording idleAfterSession))
              \<lparr>statusMessage := js ''Processing audio...''\<rparr>" by blast
  then have again: "statusMessage
                      (stopRecording (finishRecording [] [] (stopRecording idleAfterSession)))
                    = js ''Processing audio...''" by simp
  have f: "timerInterval idleAfterSession = Some 1" "intervals idleAfterSession = []"
    "\<not> recordButtonDisabled idleAfterSession" "\<not> recordButtonRecording idleAfterSession"
    "activeControlsHidden idleAfterSession" "timerText idleAfterSession = js ''00:00:00''"
    "\<not> timerActive idleAfterSession" "timeElapsed idleAfterSession = 0"
    "\<not> isRecording idleAfterSession" "\<not> isPaused idleAfterSession"
    by code_simp+
  from stop_is_idempotent [of idleAfterSession] h
  have "stopRecording idleAfterSession =
           idleAfterSession\<lparr>statusMessage := js ''Processing audio...'',
             recordButtonDisabled := False,
             recordButtonRecording := False, activeControlsHidden := True,
             intervals := (case timerInterval idleAfterSession of
                             None \<Rightarrow> intervals idleAfterSession
                           | Some i \<Rightarrow> removeAll i (intervals idleAfterSession)),
             timerText := js ''00:00:00'', timerActive := False, timeElapsed := 0,
             isRecording := False, isPaused := False\<rparr>" by blast
  also have "\<dots> = idleAfterSession\<lparr>statusMessage := js ''Processing audio...''\<rparr>"
    using f by simp
  finally show ?thesis using h st again by simp
qed

text \<open>
  In the idle state after a finished session a stop changes what the page shows: the
  status message goes from \<^verbatim>\<open>Ready to record again.\<close> to \<^verbatim>\<open>Processing audio...\<close>.
\<close>

theorem stop_on_idle_counterexample:
  "\<not> isRecording idleAfterSession \<and> \<not> isPaused idleAfterSession
   \<and> pendingStop idleAfterSession = 0
   \<and> statusMessage idleAfterSession = js ''Ready to record again.''
   \<and> statusMessage (stopRecording idleAfterSession) = js ''Processing audio...''
   \<and> stopRecording idleAfterSession \<noteq> idleAfterSession"
proof -
  have a: "\<not> isRecording idleAfterSession \<and> \<not> isPaused idleAfterSession
   \<and> pendingStop idleAfterSession = 0
   \<and> statusMessage idleAfterSession = js ''Ready to record again.''
   \<and> statusMessage (stopRecording idleAfterSession) = js ''Processing audio...''"
    by code_simp
  have "js ''Ready to record again.'' \<noteq> js ''Processing audio...''"
    by (simp add: js_def)
  with a have "statusMessage (stopRecording idleAfterSession) \<noteq> statusMessage idleAfterSession"
    by simp
  then have "stopRecording idleAfterSession \<noteq> idleAfterSession" by auto
  with a show ?thesis by simp
qed

section \<open>The list of recordings\<close>

lemma itemsFresh_step:
  assumes "itemsFresh s"
  shows "itemsFresh (step f ev s)"
proof (cases ev)
  case (ClickRecord granted now)
  with assms show ?thesis
    by (auto simp: itemsFresh_def control_defs Let_def list_all_iff intro: less_SucI)
next
  case (ClickPause now)
  show ?thesis
  proof (cases "mediaRecorder s")
    case None
    with assms ClickPause show ?thesis by (simp add: togglePauseResume_def)
  next
    case (Some r)
    with assms ClickPause show ?thesis
      by (cases r; cases "timerInterval s")
         (auto simp: itemsFresh_def control_defs Let_def list_all_iff intro: less_SucI)
  qed
next
  case ClickStop
  show ?thesis
  proof (cases "mediaRecorder s")
    case None
    with assms ClickStop show ?thesis
      by (cases "timerInterval s") (auto simp: itemsFresh_def control_defs Let_def)
  next
    case (Some r)
    with assms ClickStop show ?thesis
      by (cases r; cases "timerInterval s") (auto simp: itemsFresh_def control_defs Let_def)
  qed
next
  case (Tick now)
  with assms show ?thesis by (auto simp: itemsFresh_def control_defs Let_def)
next
  case (DataAvailable d)
  with assms show ?thesis by (auto simp: itemsFresh_def control_defs Let_def)
next
  case (Stopped date time)
  with assms show ?thesis
    by (cases "stream s")
       (auto simp: itemsFresh_def finishRecording_def addAudioToDisplay_def Let_def
          list_all_iff intro: less_SucI)
next
  case (ClickDelete i confirmed)
  with assms show ?thesis
    by (cases "find (\<lambda>e. item e = i) (audioList s)")
       (auto simp: itemsFresh_def deleteRecording_def revokeObjectURL_def Let_def
          list_all_iff distinct_map_filter)
next
  case (ClickDownload i)
  with assms show ?thesis
    by (cases "find (\<lambda>e. item e = i) (audioList s)")
       (auto simp: itemsFresh_def downloadRecording_def revokeObjectURL_def Let_def)
qed

text \<open>The elements of the list are distinct nodes in every state the script can reach.\<close>

lemma items_distinct_run:
  assumes "initial s0"
  shows "distinct (map item (audioList (run f evs s0)))"
proof -
  have "itemsFresh s \<Longrightarrow> itemsFresh (run f evs s)" for s
    by (induction evs arbitrary: s) (simp_all add: itemsFresh_step)
  moreover have "itemsFresh s0" using assms by (simp add: initial_def itemsFresh_def)
  ultimately show ?thesis by (simp add: itemsFresh_def)
qed

lemma find_item:
  assumes "e \<in> set xs" and "distinct (map item xs)"
  shows "find (\<lambda>x. item x = item e) xs = Some e"
  using assms by (induction xs) (auto simp: image_iff)

lemma find_none: "i \<notin> item ` set xs \<Longrightarrow> find (\<lambda>x. item x = i) xs = None"
  by (induction xs) auto

lemma filter_item:
  assumes "e \<in> set xs" and "distinct (map item xs)"
  shows "filter (\<lambda>x. item x \<noteq> item e) xs = remove1 e xs"
  using assms
proof (induction xs)
  case Nil
  then show ?case by simp
next
  case (Cons x xs)
  show ?case
  proof (cases "x = e")
    case True
    with Cons.prems have "\<forall>y\<in>set xs. item y \<noteq> item e" by (auto simp: image_iff)
    then have "filter (\<lambda>x. item x \<noteq> item e) xs = xs" by (simp add: filter_id_conv)
    with True show ?thesis by simp
  next
    case False
    with Cons.prems have e: "e \<in> set xs" and d: "distinct (map item xs)" by auto
    from Cons.prems e have "item x \<noteq> item e" by (auto simp: image_iff)
    with Cons.IH [OF e d] False show ?thesis by simp
  qed
qed

text \<open>
  Claim C8. Deleting an element of the list asks for confirmation. When it is declined
  nothing changes. When it is confirmed the object URL of the element is revoked, once,
  and resolves to nothing afterwards, and exactly that element leaves the list, so that
  its download and delete buttons no longer exist: such clicks change nothing.
\<close>

theorem delete_recording:
  assumes "e \<in> set (audioList s)" and "distinct (map item (audioList s))"
  shows "step toUpper (ClickDelete (item e) False) s = s
     \<and> revoked (step toUpper (ClickDelete (item e) True) s) = revoked s @ [url e]
     \<and> map_of (objectURLs (step toUpper (ClickDelete (item e) True) s)) (url e) = None
     \<and> audioList (step toUpper (ClickDelete (item e) True) s) = remove1 e (audioList s)
     \<and> item e \<notin> item ` set (audioList (step toUpper (ClickDelete (item e) True) s))
     \<and> length (audioList (step toUpper (ClickDelete (item e) True) s)) + 1
         = length (audioList s)
     \<and> step toUpper (ClickDownload (item e)) (step toUpper (ClickDelete (item e) True) s)
         = step toUpper (ClickDelete (item e) True) s
     \<and> step toUpper (ClickDelete (item e) again)
           (step toUpper (ClickDelete (item e) True) s)
         = step toUpper (ClickDelete (item e) True) s"
proof -
  note f = find_item [OF assms]
  define s' where "s' = step toUpper (ClickDelete (item e) True) s"
  have declined: "step toUpper (ClickDelete (item e) False) s = s"
    using f by (simp add: deleteRecording_def)
  have s': "s' = (revokeObjectURL (url e) s)
                   \<lparr>audioList := filter (\<lambda>x. item x \<noteq> item e) (audioList s)\<rparr>"
    using f by (simp add: s'_def deleteRecording_def revokeObjectURL_def Let_def)
  have r: "revoked s' = revoked s @ [url e]"
    by (simp add: s' revokeObjectURL_def)
  have m: "map_of (objectURLs s') (url e) = None"
    by (simp add: s' revokeObjectURL_def map_of_eq_None_iff image_iff)
  have l: "audioList s' = remove1 e (audioList s)"
    by (simp add: s' filter_item [OF assms])
  have g: "item e \<notin> item ` set (audioList s')"
    by (auto simp: s')
  have "0 < length (audioList s)"
    using assms(1) by (cases "audioList s") simp_all
  then have n: "length (audioList s') + 1 = length (audioList s)"
    using assms(1) by (simp add: l length_remove1)
  note fn = find_none [OF g]
  have d: "step toUpper (ClickDownload (item e)) s' = s'" using fn by simp
  have a: "step toUpper (ClickDelete (item e) again) s' = s'" using fn by simp
  from declined r m l g n d a show ?thesis unfolding s'_def by blast
qed

theorem delete_recording_witness:
  "audioList idleAfterSession
     = [\<lparr>item = 3, url = 2, name = js ''Recording 1/2/2026 10:00 (00:00)''\<rparr>]
   \<and> distinct (map item (audioList idleAfterSession))
   \<and> step upperExcerpt (ClickDelete 3 False) idleAfterSession = idleAfterSession
   \<and> audioList (step upperExcerpt (ClickDelete 3 True) idleAfterSession) = []
   \<and> revoked (step upperExcerpt (ClickDelete 3 True) idleAfterSession) = [2]
   \<and> map_of (objectURLs (step upperExcerpt (ClickDelete 3 True) idleAfterSession)) 2 = None"
proof -
  have l: "audioList idleAfterSession
             = [\<lparr>item = 3, url = 2, name = js ''Recording 1/2/2026 10:00 (00:00)''\<rparr>]"
    by code_simp
  have r: "revoked idleAfterSession = []" by code_simp
  have m: "\<lparr>item = 3, url = 2, name = js ''Recording 1/2/2026 10:00 (00:00)''\<rparr>
             \<in> set (audioList idleAfterSession)"
    by (simp add: l)
  have d: "distinct (map item (audioList idleAfterSession))" by (simp add: l)
  from delete_recording [OF m d, of upperExcerpt] l r d show ?thesis by simp
qed

section \<open>Downloading\<close>

text \<open>
  \<^verbatim>\<open>downloadRecording\<close> is given the object URL of the element itself and revokes it: the
  element stays in the list, and its URL, which the player and the next download use,
  resolves to nothing afterwards.
\<close>

lemma click_download_revokes_url:
  assumes "e \<in> set (audioList s)" and "distinct (map item (audioList s))"
  shows "audioList (step f (ClickDownload (item e)) s) = audioList s
         \<and> map_of (objectURLs (step f (ClickDownload (item e)) s)) (url e) = None
         \<and> revoked (step f (ClickDownload (item e)) s) = revoked s @ [url e]"
  using find_item [OF assms]
  by (simp add: downloadRecording_def revokeObjectURL_def map_of_eq_None_iff image_iff)

text \<open>
  Claim C3. A download should leave the element and its payload reference as they are.
  After one session the list holds one element, whose URL 2 resolves to the payload.
  A click on its download button leaves the list (and so the name) unchanged, but
  revokes URL 2, the reference of the element itself: it resolves to nothing
  afterwards, and a second download is handed no payload.
\<close>

theorem download_revokes_entry_url:
  "map url (audioList idleAfterSession) = [2]
   \<and> map item (audioList idleAfterSession) = [3]
   \<and> map_of (objectURLs idleAfterSession) 2 = Some [1, 2, 3]
   \<and> audioList (step upperExcerpt (ClickDownload 3) idleAfterSession)
       = audioList idleAfterSession
   \<and> map_of (objectURLs (step upperExcerpt (ClickDownload 3) idleAfterSession)) 2 = None
   \<and> revoked (step upperExcerpt (ClickDownload 3) idleAfterSession) = [2]
   \<and> map snd (downloads (run upperExcerpt [ClickDownload 3, ClickDownload 3] idleAfterSession))
       = [Some [1, 2, 3], None]"
  by code_simp

end
